theory Spec2Isabelle
  imports Complex_Main "HOL-Library.Char_ord" "HOL-Library.Sublist"
begin

section \<open>Text\<close>

text \<open>
  Strings are lists of characters. Keys and emitted text are ASCII here: the
  character classes below are the ASCII ranges that the regular expressions of the
  program name (\<^verbatim>\<open>[a-z]\<close>, \<^verbatim>\<open>[A-Z]\<close>, \<^verbatim>\<open>\d\<close>).
\<close>

definition isLower :: "char \<Rightarrow> bool" where
  "isLower c = (CHR ''a'' \<le> c \<and> c \<le> CHR ''z'')"

definition isUpper :: "char \<Rightarrow> bool" where
  "isUpper c = (CHR ''A'' \<le> c \<and> c \<le> CHR ''Z'')"

definition isDigit :: "char \<Rightarrow> bool" where
  "isDigit c = (CHR ''0'' \<le> c \<and> c \<le> CHR ''9'')"

text \<open>An ASCII letter and its other case differ in the bit of value 32.\<close>

fun setCaseBit :: "bool \<Rightarrow> char \<Rightarrow> char" where
  "setCaseBit b (Char b0 b1 b2 b3 b4 b5 b6 b7) = Char b0 b1 b2 b3 b4 b b6 b7"

definition toLowerChar :: "char \<Rightarrow> char" where
  "toLowerChar c = (if isUpper c then setCaseBit True c else c)"

definition toUpperChar :: "char \<Rightarrow> char" where
  "toUpperChar c = (if isLower c then setCaseBit False c else c)"

definition toLowerCase :: "string \<Rightarrow> string" where
  "toLowerCase s = map toLowerChar s"

text \<open>\<^verbatim>\<open>Array.prototype.join\<close>: the elements with the separator between neighbours.\<close>

fun join :: "string \<Rightarrow> string list \<Rightarrow> string" where
  "join sep [] = []"
| "join sep [x] = x"
| "join sep (x # y # ys) = x @ sep @ join sep (y # ys)"

text \<open>\<^verbatim>\<open>'  '.repeat(tabs)\<close> behind the guard \<^verbatim>\<open>tabs <= 0\<close> of \<^verbatim>\<open>indent\<close>.\<close>

definition indent :: "int \<Rightarrow> string" where
  "indent tabs = (if tabs \<le> 0 then [] else concat (replicate (nat tabs) ''  ''))"

section \<open>The lodash helpers\<close>

text \<open>
  Modelled from the spec: the library functions \<^verbatim>\<open>_.snakeCase\<close>, \<^verbatim>\<open>_.camelCase\<close>,
  \<^verbatim>\<open>_.upperFirst\<close> and \<^verbatim>\<open>_.uniq\<close> are imported from lodash and are not part of
  the sources. The specification describes snake-casing as converting casing boundaries
  to underscore-lowercase and collapsing non-alphanumeric separators to underscores; the
  definitions below give that reading for ASCII text, following the word pattern of
  lodash 4.17 alternative by alternative:
  \<^item> a run of lower-case letters, with one upper-case letter in front when there is one
    (\<^verbatim>\<open>[A-Z]?[a-z]+\<close>);
  \<^item> a run of upper-case letters, without its last letter when a lower-case letter
    follows the run (\<^verbatim>\<open>[A-Z]+(?=[A-Z][a-z])\<close>);
  \<^item> an English ordinal such as \<^verbatim>\<open>21st\<close> or \<^verbatim>\<open>4TH\<close>, a run of digits whose last
    digit carries the matching suffix, when no letter of the same case and no digit
    follows the suffix;
  \<^item> a run of digits;
  \<^item> every other character separates words.
  Apostrophes are deleted before the text is split.
\<close>

definition ordinalSuffix :: "char \<Rightarrow> string" where
  "ordinalSuffix d =
     (if d = CHR ''1'' then ''st'' else if d = CHR ''2'' then ''nd''
      else if d = CHR ''3'' then ''rd'' else ''th'')"

definition ordLower :: "char \<Rightarrow> string \<Rightarrow> bool" where
  "ordLower d after =
     (take 2 after = ordinalSuffix d \<and>
      (case drop 2 after of [] \<Rightarrow> True | x # _ \<Rightarrow> \<not> (isLower x \<or> isDigit x)))"

definition ordUpper :: "char \<Rightarrow> string \<Rightarrow> bool" where
  "ordUpper d after =
     (take 2 after = map toUpperChar (ordinalSuffix d) \<and>
      (case drop 2 after of [] \<Rightarrow> True | x # _ \<Rightarrow> \<not> (isUpper x \<or> isDigit x)))"

text \<open>The length of the word that starts at the head of the text, 0 when none does.\<close>

definition wordLength :: "string \<Rightarrow> nat" where
  "wordLength s =
     (case s of
        [] \<Rightarrow> 0
      | c # cs \<Rightarrow>
          if isLower c then length (takeWhile isLower s)
          else if isUpper c then
            (case cs of
               [] \<Rightarrow> 1
             | x # _ \<Rightarrow>
                 if isLower x then Suc (length (takeWhile isLower cs))
                 else
                   (let n = length (takeWhile isUpper s) in
                    case drop n s of
                      [] \<Rightarrow> n
                    | y # _ \<Rightarrow> if isLower y then n - 1 else n))
          else if isDigit c then
            (let m = length (takeWhile isDigit s);
                 d = last (takeWhile isDigit s);
                 after = drop m s
             in if ordUpper d after \<or> ordLower d after then m + 2 else m)
          else 0)"

function unicodeWords :: "string \<Rightarrow> string list" where
  "unicodeWords [] = []"
| "unicodeWords (c # cs) =
     (let n = wordLength (c # cs)
      in if n = 0 then unicodeWords cs
         else take n (c # cs) # unicodeWords (drop n (c # cs)))"
  by pat_completeness auto
termination
  by (relation "measure length") auto

definition words :: "string \<Rightarrow> string list" where
  "words s = unicodeWords (filter (\<lambda>c. c \<noteq> CHR 0x27) s)"

definition snakeCase :: "string \<Rightarrow> string" where
  "snakeCase s = join ''_'' (map toLowerCase (words s))"

definition upperFirst :: "string \<Rightarrow> string" where
  "upperFirst s = (case s of [] \<Rightarrow> [] | c # cs \<Rightarrow> toUpperChar c # cs)"

definition capitalize :: "string \<Rightarrow> string" where
  "capitalize s = upperFirst (toLowerCase s)"

definition camelCase :: "string \<Rightarrow> string" where
  "camelCase s =
     (case words s of
        [] \<Rightarrow> []
      | w # ws \<Rightarrow> toLowerCase w @ concat (map (\<lambda>x. capitalize (toLowerCase x)) ws))"

text \<open>
  \<^verbatim>\<open>_.uniq\<close> walks the array once and keeps a value when it is not among the values
  kept so far.
\<close>

fun baseUniq :: "'a list \<Rightarrow> 'a list \<Rightarrow> 'a list" where
  "baseUniq result [] = result"
| "baseUniq result (x # xs) =
     (if x \<in> set result then baseUniq result xs else baseUniq (result @ [x]) xs)"

definition uniq :: "'a list \<Rightarrow> 'a list" where
  "uniq xs = baseUniq [] xs"

section \<open>The key formatter\<close>

text \<open>
  \<^verbatim>\<open>format\<close> of \<^verbatim>\<open>json-to-crystal.ts\<close>; \<^verbatim>\<open>Util.formatKey\<close> of the JavaScript
  implementation is the same text. The parameter is optional, so an absent key is
  \<open>None\<close>; \<^verbatim>\<open>!str\<close> holds for the absent and for the empty key.
\<close>

definition numbers :: "char \<Rightarrow> string" where
  "numbers c =
     (if c = CHR ''0'' then ''zero_'' else if c = CHR ''1'' then ''one_''
      else if c = CHR ''2'' then ''two_'' else if c = CHR ''3'' then ''three_''
      else if c = CHR ''4'' then ''four_'' else if c = CHR ''5'' then ''five_''
      else if c = CHR ''6'' then ''six_'' else if c = CHR ''7'' then ''seven_''
      else if c = CHR ''8'' then ''eight_'' else ''nine_'')"

definition format :: "string option \<Rightarrow> string" where
  "format str =
     (case str of
        None \<Rightarrow> []
      | Some [] \<Rightarrow> []
      | Some (c # cs) \<Rightarrow>
          if list_all isDigit (c # cs) then snakeCase (''num'' @ c # cs)
          else if isDigit c then snakeCase (numbers c @ cs)
          else snakeCase (c # cs))"

abbreviation formatKey :: "string option \<Rightarrow> string" where
  "formatKey \<equiv> format"

section \<open>JSON values\<close>

text \<open>
  A JavaScript number: a finite number, which is a rational, or one of the three values
  that are not finite. \<^verbatim>\<open>JSON.parse\<close> returns \<^verbatim>\<open>Infinity\<close> for a literal too large for
  a double, such as \<^verbatim>\<open>1e400\<close>.
\<close>

datatype number = Finite rat | Infinity | NegInfinity | NaN

text \<open>
  The parsed input. An object is the list of its keys with their values, in the order of
  \<^verbatim>\<open>Object.keys\<close>, each key once.
\<close>

datatype json =
    JNull
  | JBool bool
  | JNumber number
  | JString string
  | JArray "json list"
  | JObject "(string \<times> json) list"

text \<open>
  The members of an object value and the elements of an array value. The program reads
  them only behind a test that the value is an object, or an array.
\<close>

fun properties :: "json \<Rightarrow> (string \<times> json) list" where
  "properties (JObject kvs) = kvs"
| "properties v = []"

fun elements :: "json \<Rightarrow> json list" where
  "elements (JArray arr) = arr"
| "elements v = []"

text \<open>
  \<^verbatim>\<open>val % 1\<close>: for a finite number the remainder of the truncating division by 1, which
  has the sign of \<^verbatim>\<open>val\<close>; \<^verbatim>\<open>NaN\<close> for the other values.
\<close>

fun remainderOne :: "number \<Rightarrow> number" where
  "remainderOne (Finite val) = Finite (val - of_int (if 0 \<le> val then \<lfloor>val\<rfloor> else \<lceil>val\<rceil>))"
| "remainderOne val = NaN"

text \<open>The comparison \<^verbatim>\<open><\<close> of two numbers; it is false when one of them is \<^verbatim>\<open>NaN\<close>.\<close>

fun lessThan :: "number \<Rightarrow> number \<Rightarrow> bool" where
  "lessThan (Finite a) (Finite b) = (a < b)"
| "lessThan (Finite a) Infinity = True"
| "lessThan NegInfinity (Finite b) = True"
| "lessThan NegInfinity Infinity = True"
| "lessThan a b = False"

text \<open>
  The \<^verbatim>\<open>case 'number'\<close> branch, which \<^verbatim>\<open>crystalType\<close> of \<^verbatim>\<open>json-to-crystal.ts\<close>
  and \<^verbatim>\<open>Util.crystalType\<close> share word for word.
\<close>

definition numberType :: "number \<Rightarrow> string" where
  "numberType val =
     (if remainderOne val = Finite 0 then
        (if lessThan (Finite (- 2147483648)) val \<and> lessThan val (Finite 2147483647)
         then ''Int32'' else ''Int64'')
      else ''Float64'')"

section \<open>The TypeScript implementation\<close>

record config =
  baseClass :: string
  allNilable :: bool

text \<open>
  The start of a field entry in the loop over the keys of \<^verbatim>\<open>parseClass\<close>: the formatted
  key, the original key when formatting changed it, and the nilable mark.
\<close>

definition fieldHead :: "config \<Rightarrow> int \<Rightarrow> string \<Rightarrow> string" where
  "fieldHead cfg indentLevel key =
     (let formattedKey = format (Some key);
          str = indent indentLevel @ formattedKey @ '': { '';
          str = (if key \<noteq> formattedKey then str @ ''key: \"'' @ key @ ''\", '' else str)
      in if allNilable cfg then str @ ''nilable: true, '' else str)"

text \<open>The first statement of \<^verbatim>\<open>parseClass\<close>: a name with a lower-case first letter is camel-cased.\<close>

definition className :: "string \<Rightarrow> string" where
  "className name =
     (case name of
        [] \<Rightarrow> name
      | c # _ \<Rightarrow> if isLower c then upperFirst (camelCase name) else name)"

lemma properties_size:
  "size_list (size_prod (\<lambda>_. 0) size) (properties v) \<le> size v"
  by (cases v) simp_all

lemma elements_size:
  "size_list size (elements v) \<le> size v"
  by (cases v) simp_all

lemma member_size:
  "(key, val) \<in> set scope \<Longrightarrow> size val < size_list (size_prod (\<lambda>_. 0) size) scope"
  by (induction scope) auto

lemma element_size:
  "v \<in> set arr \<Longrightarrow> size v < size_list size arr"
  by (induction arr) auto

lemma filter_size:
  "size_list f (filter P xs) \<le> size_list f xs"
  by (induction xs) auto

lemma filter_measure:
  "3 * size_list f (filter P xs) < Suc (3 * size_list f xs)"
  using filter_size [of f P xs] by simp

lemma elements_measure:
  "2 * size_list size (elements x) < Suc (2 * size x + n)"
  using elements_size [of x] by simp

lemma properties_measure:
  "3 * size_list (size_prod (\<lambda>_. 0) size) (properties sub) < 5 + (3 * size sub + n)"
  using properties_size [of sub] by simp

text \<open>
  \<^verbatim>\<open>crystalType\<close>, \<^verbatim>\<open>arrayType\<close>, \<^verbatim>\<open>parseScope\<close> and \<^verbatim>\<open>parseClass\<close>. The loop
  \<^verbatim>\<open>for (let key of keys)\<close> is \<open>fieldEntries\<close>, which returns the text the loop adds;
  the object \<^verbatim>\<open>subclasses\<close> it fills holds the members whose kind is \<^verbatim>\<open>'class'\<close>, in
  the order of the keys. An assignment to the key \<^verbatim>\<open>__proto__\<close> of that object sets its
  prototype and adds no key, so a member of that name has its field entry and no
  subclass. \<open>subclassTexts\<close> is the \<^verbatim>\<open>map\<close> over the keys of \<^verbatim>\<open>subclasses\<close>.
\<close>

function (sequential) crystalType :: "config \<Rightarrow> json \<Rightarrow> string"
  and arrayType :: "config \<Rightarrow> json list \<Rightarrow> string"
  and parseScope :: "config \<Rightarrow> json \<Rightarrow> string"
  and parseClass :: "config \<Rightarrow> string \<Rightarrow> (string \<times> json) list \<Rightarrow> int \<Rightarrow> string"
  and fieldEntries :: "config \<Rightarrow> int \<Rightarrow> (string \<times> json) list \<Rightarrow> string"
  and subclassTexts :: "config \<Rightarrow> int \<Rightarrow> (string \<times> json) list \<Rightarrow> string list"
where
  "crystalType cfg JNull = ''JSON::Any''"
| "crystalType cfg (JString s) = ''String''"
| "crystalType cfg (JNumber val) = numberType val"
| "crystalType cfg (JBool b) = ''Bool''"
| "crystalType cfg (JArray arr) = arrayType cfg arr"
| "crystalType cfg (JObject kvs) = ''class''"
| "arrayType cfg arr =
     (let types = map (parseScope cfg) arr;
          unique = uniq types;
          unique = (if length unique = 0 then unique @ [''JSON::Any''] else unique);
          union = join '' | '' unique
      in ''Array('' @ union @ '')'')"
| "parseScope cfg (JArray arr) = arrayType cfg arr"
| "parseScope cfg (JObject kvs) = parseClass cfg (baseClass cfg) kvs 0"
| "parseScope cfg JNull = crystalType cfg JNull"
| "parseScope cfg (JBool b) = crystalType cfg (JBool b)"
| "parseScope cfg (JNumber val) = crystalType cfg (JNumber val)"
| "parseScope cfg (JString s) = crystalType cfg (JString s)"
| "parseClass cfg name scope indentLevel =
     (let str = indent indentLevel @ ''class '' @ className name @ ''\<newline>\<newline>'';
          str = str @ indent (indentLevel + 1) @ ''JSON.mapping({\<newline>'';
          str = str @ fieldEntries cfg (indentLevel + 2) scope;
          subclasses = filter
            (\<lambda>(key, val). crystalType cfg val = ''class'' \<and> key \<noteq> ''__proto__'') scope;
          str = str @ indent (indentLevel + 1) @ ''})\<newline>\<newline>'';
          str = str @ join ''\<newline>\<newline>'' (subclassTexts cfg (indentLevel + 1) subclasses)
      in str @ indent indentLevel @ ''end\<newline>'')"
| "fieldEntries cfg indentLevel [] = []"
| "fieldEntries cfg indentLevel ((key, val) # scope) =
     (let str = fieldHead cfg indentLevel key;
          kind = crystalType cfg val;
          str = (if kind = ''class'' then str @ ''type: '' @ key @ '' },\<newline>''
                 else str @ ''type: '' @ parseScope cfg val @ '' },\<newline>'')
      in str @ fieldEntries cfg indentLevel scope)"
| "subclassTexts cfg indentLevel [] = []"
| "subclassTexts cfg indentLevel ((sc, sub) # subclasses) =
     parseClass cfg sc (properties sub) indentLevel # subclassTexts cfg indentLevel subclasses"
  by pat_completeness auto
termination
  by (relation "measure
    (case_sum
      (case_sum (\<lambda>(cfg, v). 3 * size v)
        (case_sum (\<lambda>(cfg, arr). 3 * size_list size arr + 1)
          (\<lambda>(cfg, v). 3 * size v + 1)))
      (case_sum
        (\<lambda>(cfg, name, scope, indentLevel).
           3 * size_list (size_prod (\<lambda>_. 0) size) scope + 2)
        (case_sum
          (\<lambda>(cfg, indentLevel, scope).
             3 * size_list (size_prod (\<lambda>_. 0) size) scope + 1)
          (\<lambda>(cfg, indentLevel, subclasses).
             3 * size_list (size_prod (\<lambda>_. 0) size) subclasses + 1))))")
    (auto simp: filter_measure properties_measure dest: member_size element_size)

text \<open>
  The errors of the program: the \<^verbatim>\<open>SyntaxError\<close> that \<^verbatim>\<open>JSON.parse\<close> throws, the class
  \<^verbatim>\<open>JsonParseError\<close> that both implementations declare, and the \<^verbatim>\<open>Error\<close> of the
  JavaScript \<^verbatim>\<open>parse\<close> for a value it does not support, with the \<^verbatim>\<open>typeof\<close> it reports.
\<close>

datatype error = SyntaxError | JsonParseError | UnsupportedDataType string

text \<open>
  \<^verbatim>\<open>scope.replace(/\.0/g, '.1')\<close>: the text is read from the left, and a full stop
  with a zero behind it is written as a full stop with a one.
\<close>

fun replaceDotZero :: "string \<Rightarrow> string" where
  "replaceDotZero (a # b # s) =
     (if a = CHR ''.'' \<and> b = CHR ''0'' then CHR ''.'' # CHR ''1'' # replaceDotZero s
      else a # replaceDotZero (b # s))"
| "replaceDotZero s = s"

text \<open>
  \<^verbatim>\<open>parse\<close> of \<^verbatim>\<open>json-to-crystal.ts\<close>. \<^verbatim>\<open>JSON.parse\<close> belongs to the platform and is a
  parameter: it returns the value of a text, or \<open>None\<close> where it throws its
  \<^verbatim>\<open>SyntaxError\<close>, which \<^verbatim>\<open>parse\<close> does not catch.
\<close>

definition parse :: "(string \<Rightarrow> json option) \<Rightarrow> config \<Rightarrow> string \<Rightarrow> error + string" where
  "parse JSON_parse cfg scope =
     (case JSON_parse (replaceDotZero scope) of
        None \<Rightarrow> Inl SyntaxError
      | Some data \<Rightarrow> Inr (parseScope cfg data))"

section \<open>The JavaScript implementation\<close>

text \<open>
  The options that the classes read. \<^verbatim>\<open>ignoreValues\<close> is never read and is left out;
  \<open>allNilableOpt\<close> is the option \<^verbatim>\<open>allNilable\<close>.
\<close>

record options =
  baseClassName :: string
  baseIndent :: int
  ignoreKeys :: "string \<Rightarrow> bool"
  transformKeys :: "string \<Rightarrow> string"
  allNilableOpt :: bool
  nilable :: "string \<Rightarrow> string \<Rightarrow> bool"
  compact :: bool

text \<open>\<^verbatim>\<open>_defaultOptions\<close>; \<^verbatim>\<open>noop\<close> returns \<^verbatim>\<open>undefined\<close>, which counts as false.\<close>

definition defaultOptions :: options where
  "defaultOptions =
     \<lparr>baseClassName = ''AutoGenerated'', baseIndent = 0, ignoreKeys = (\<lambda>x. False),
      transformKeys = (\<lambda>x. formatKey (Some x)), allNilableOpt = False,
      nilable = (\<lambda>x key. False), compact = False\<rparr>"

definition Util_crystalType :: "json \<Rightarrow> string" where
  "Util_crystalType val =
     (case val of
        JNull \<Rightarrow> ''JSON::Any''
      | JString s \<Rightarrow> ''String''
      | JNumber v \<Rightarrow> numberType v
      | JBool b \<Rightarrow> ''Bool''
      | JArray arr \<Rightarrow> ''array''
      | JObject kvs \<Rightarrow> ''class'')"

text \<open>
  \<^verbatim>\<open>CrystalNamedTuple.toString\<close>: the \<^verbatim>\<open>reduce\<close> puts \<^verbatim>\<open>', '\<close> behind every pair but the
  last, which is a \<^verbatim>\<open>join\<close>.
\<close>

definition CrystalNamedTuple_toString :: "(string \<Rightarrow> string) \<Rightarrow> (string \<times> json) list \<Rightarrow> string" where
  "CrystalNamedTuple_toString transform props =
     (let pairs = map (\<lambda>(k, v). [transform k, Util_crystalType v]) props;
          props = join '', '' (map (join '': '') pairs)
      in ''NamedTuple('' @ props @ '')'')"

text \<open>
  \<^verbatim>\<open>CrystalArray.toString\<close>; \<open>elementTypes\<close> is the two \<^verbatim>\<open>map\<close>s over \<^verbatim>\<open>rawArr\<close>. The
  first parameter is the option \<^verbatim>\<open>transformKeys\<close>, the only option read below an array.
\<close>

function (sequential) elementTypes :: "(string \<Rightarrow> string) \<Rightarrow> json list \<Rightarrow> string list"
  and CrystalArray_toString :: "(string \<Rightarrow> string) \<Rightarrow> json list \<Rightarrow> string"
where
  "elementTypes transform [] = []"
| "elementTypes transform (x # rawArr) =
     (let v = Util_crystalType x
      in (if v = ''class'' then CrystalNamedTuple_toString transform (properties x)
          else if v = ''array'' then CrystalArray_toString transform (elements x)
          else v) # elementTypes transform rawArr)"
| "CrystalArray_toString transform rawArr =
     (let types = elementTypes transform rawArr;
          unique = uniq types;
          unique = (if length unique = 0 then unique @ [''JSON::Any''] else unique);
          union = join '' | '' unique
      in ''Array('' @ union @ '')'')"
  by pat_completeness auto
termination
  by (relation "measure
    (case_sum (\<lambda>(transform, rawArr). 2 * size_list size rawArr)
      (\<lambda>(transform, rawArr). 2 * size_list size rawArr + 1))")
    (auto simp: elements_measure)

text \<open>\<^verbatim>\<open>_indent\<close>, \<^verbatim>\<open>_formatClassName\<close> and \<^verbatim>\<open>_spacing\<close> of \<^verbatim>\<open>CrystalClass\<close>.\<close>

definition indentLine :: "string \<Rightarrow> int \<Rightarrow> string" where
  "indentLine str level = (if level \<le> 0 then str else concat (replicate (nat level) ''  '') @ str)"

definition formatClassName :: "string \<Rightarrow> string" where
  "formatClassName name = upperFirst (camelCase name)"

definition spacing :: "options \<Rightarrow> string list \<Rightarrow> string list" where
  "spacing opts arr = (if compact opts then arr else arr @ [[]])"

text \<open>
  The \<^verbatim>\<open>map\<close> over the kept keys in \<^verbatim>\<open>CrystalClass.parse\<close>: \<open>n\<close> is \<^verbatim>\<open>keys.length\<close>,
  \<open>i\<close> the index. The name of a subclass is set by its constructor, so the entry needs
  no recursion.
\<close>

fun classItems :: "options \<Rightarrow> nat \<Rightarrow> int \<Rightarrow> nat \<Rightarrow> (string \<times> json) list \<Rightarrow> string list" where
  "classItems opts n indentLevel i [] = []"
| "classItems opts n indentLevel i ((x, val) # kept) =
     (let key = transformKeys opts x;
          type = Util_crystalType val;
          type = (if type = ''class'' then formatClassName key
                  else if type = ''array''
                    then CrystalArray_toString (transformKeys opts) (elements val)
                  else type);
          str = key @ '': { '';
          str = (if key \<noteq> x then str @ ''key: \"'' @ x @ ''\", '' else str);
          str = (if allNilableOpt opts \<or> nilable opts x key then str @ ''nilable: true, '' else str);
          str = str @ ''type: '' @ type @ '' }'';
          str = (if int i < int n - 1 then str @ '','' else str)
      in indentLine str indentLevel # classItems opts n indentLevel (i + 1) kept)"

text \<open>What \<^verbatim>\<open>join\<close> writes for an element: nothing for \<^verbatim>\<open>undefined\<close>.\<close>

definition joined :: "string option \<Rightarrow> string" where
  "joined v = (case v of None \<Rightarrow> [] | Some str \<Rightarrow> str)"

text \<open>
  \<^verbatim>\<open>CrystalClass\<close>: the constructor and \<^verbatim>\<open>parse\<close>, which \<^verbatim>\<open>toString\<close> calls once. A class
  without keys has no text (\<^verbatim>\<open>undefined\<close>, here \<open>None\<close>). \<open>subclassStrings\<close> walks the kept
  keys and renders the subclass of each key of type \<^verbatim>\<open>'class'\<close>; a subclass is built
  with the default options and the base indent \<^verbatim>\<open>indentLevel - 1\<close>.
\<close>

function (sequential) CrystalClass_toString :: "options \<Rightarrow> string \<Rightarrow> (string \<times> json) list \<Rightarrow> string option"
  and subclassStrings :: "options \<Rightarrow> int \<Rightarrow> (string \<times> json) list \<Rightarrow> string list"
where
  "CrystalClass_toString opts name props =
     (let indentLevel = baseIndent opts;
          arr = [indentLine (''class '' @ formatClassName name) indentLevel];
          arr = spacing opts arr
      in if length props > 0 then
           (let arr = arr @ [indentLine ''JSON.mapping({'' (indentLevel + 1)];
                kept = filter (\<lambda>(x, val). \<not> ignoreKeys opts x) props;
                arr = arr @ classItems opts (length props) (indentLevel + 2) 0 kept;
                arr = arr @ [indentLine ''})'' (indentLevel + 1)];
                arr = spacing opts arr;
                arr = arr @ subclassStrings opts (indentLevel + 1) kept;
                arr = arr @ [indentLine ''end'' indentLevel];
                arr = spacing opts arr
            in Some (join ''\<newline>'' arr))
         else None)"
| "subclassStrings opts base [] = []"
| "subclassStrings opts base ((x, val) # kept) =
     (if Util_crystalType val = ''class''
      then joined (CrystalClass_toString (defaultOptions\<lparr>baseIndent := base\<rparr>)
                     (transformKeys opts x) (properties val))
             # subclassStrings opts base kept
      else subclassStrings opts base kept)"
  by pat_completeness auto
termination
  by (relation "measure
    (case_sum
      (\<lambda>(opts, name, props). 3 * size_list (size_prod (\<lambda>_. 0) size) props + 2)
      (\<lambda>(opts, base, kept). 3 * size_list (size_prod (\<lambda>_. 0) size) kept + 1))")
    (auto simp: filter_measure properties_measure)

text \<open>\<^verbatim>\<open>typeof\<close> of a value that is neither a string, an array nor a plain object.\<close>

definition typeof :: "json \<Rightarrow> string" where
  "typeof v = (case v of JBool b \<Rightarrow> ''boolean'' | JNumber n \<Rightarrow> ''number'' | _ \<Rightarrow> ''object'')"

text \<open>
  \<^verbatim>\<open>JsonToCrystal.parse\<close>. A string is parsed and the method runs again on the value,
  which may be a string again: the method returns only when that chain ends, so the
  result is an option with \<open>None\<close> for a run that does not end.
\<close>

partial_function (option) JsonToCrystal_parse ::
  "(string \<Rightarrow> json option) \<Rightarrow> options \<Rightarrow> json \<Rightarrow> (error + string option) option"
where
  "JsonToCrystal_parse JSON_parse opts scope =
     (case scope of
        JString text \<Rightarrow>
          (case JSON_parse (replaceDotZero text) of
             None \<Rightarrow> Some (Inl SyntaxError)
           | Some data \<Rightarrow> JsonToCrystal_parse JSON_parse opts data)
      | JArray arr \<Rightarrow>
          Some (Inr (Some (''alias AutoGenerated = ''
                  @ CrystalArray_toString (\<lambda>x. formatKey (Some x)) arr)))
      | JObject props \<Rightarrow> Some (Inr (CrystalClass_toString opts (baseClassName opts) props))
      | _ \<Rightarrow> Some (Inl (UnsupportedDataType (typeof scope))))"

section \<open>Notions of the specification\<close>

text \<open>
  The union of an array type as the specification words it: of each distinct type the
  first occurrence, in the order of the first occurrences. \<open>firstIndex x xs\<close> is the
  place of the first \<open>x\<close> in \<open>xs\<close>.
\<close>

fun firstOccurrences :: "'a list \<Rightarrow> 'a list" where
  "firstOccurrences [] = []"
| "firstOccurrences (x # xs) = x # filter (\<lambda>y. y \<noteq> x) (firstOccurrences xs)"

definition firstIndex :: "'a \<Rightarrow> 'a list \<Rightarrow> nat" where
  "firstIndex x xs = length (takeWhile (\<lambda>y. y \<noteq> x) xs)"

text \<open>
  A key in snake case: words of lower-case letters and digits, none of them empty, with
  one underscore between neighbours. \<open>splitOn\<close> cuts a text at every separator.
\<close>

fun splitOn :: "char \<Rightarrow> string \<Rightarrow> string list" where
  "splitOn sep [] = [[]]"
| "splitOn sep (x # xs) =
     (if x = sep then [] # splitOn sep xs
      else (case splitOn sep xs of [] \<Rightarrow> [[x]] | w # ws \<Rightarrow> (x # w) # ws))"

definition isSnakeCase :: "string \<Rightarrow> bool" where
  "isSnakeCase k =
     list_all (\<lambda>w. w \<noteq> [] \<and> list_all (\<lambda>c. isLower c \<or> isDigit c) w) (splitOn (CHR ''_'') k)"

definition startsWithDigit :: "string \<Rightarrow> bool" where
  "startsWithDigit k = (case k of [] \<Rightarrow> False | c # cs \<Rightarrow> isDigit c)"

text \<open>
  For the proofs about such keys: the characters they are made of, a text that is at its
  end or at an underscore, and a word that the splitter gives back whole whenever the
  text behind it is at a separator.
\<close>

definition keyChar :: "char \<Rightarrow> bool" where
  "keyChar c = (isLower c \<or> isDigit c \<or> c = CHR ''_'')"

definition atSeparator :: "string \<Rightarrow> bool" where
  "atSeparator rest = (case rest of [] \<Rightarrow> True | r # rs \<Rightarrow> r = CHR ''_'')"

definition stable :: "string \<Rightarrow> bool" where
  "stable w = (w \<noteq> [] \<and> list_all keyChar w
     \<and> (\<forall>rest. atSeparator rest \<longrightarrow> wordLength (w @ rest) = length w))"

section \<open>The scalar type inferer\<close>

lemma remainderOne_zero_iff: "remainderOne (Finite val) = Finite 0 \<longleftrightarrow> val \<in> \<int>"
proof
  assume "remainderOne (Finite val) = Finite 0"
  then have "val = of_int (if 0 \<le> val then \<lfloor>val\<rfloor> else \<lceil>val\<rceil>)"
    by simp
  then show "val \<in> \<int>"
    by (metis Ints_of_int)
next
  assume "val \<in> \<int>"
  then obtain z where "val = of_int z"
    by (auto elim: Ints_cases)
  then show "remainderOne (Finite val) = Finite 0"
    by simp
qed

text \<open>
  What the number branch computes: a number with a fractional part is a \<^verbatim>\<open>Float64\<close>, an
  integer strictly between the two bounds is an \<^verbatim>\<open>Int32\<close>, and every other integer, the
  two bounds included, is an \<^verbatim>\<open>Int64\<close>.
\<close>

lemma numberType_cases:
  "numberType (Finite val) =
     (if val \<in> \<int> then (if - 2147483648 < val \<and> val < 2147483647 then ''Int32'' else ''Int64'')
      else ''Float64'')"
  by (simp add: numberType_def remainderOne_zero_iff del: remainderOne.simps)

text \<open>A number that is not finite has no remainder equal to 0 and is a \<^verbatim>\<open>Float64\<close>.\<close>

lemma numberType_not_finite:
  "numberType Infinity = ''Float64'' \<and> numberType NegInfinity = ''Float64''
   \<and> numberType NaN = ''Float64''"
  by (simp add: numberType_def)

text \<open>
  C1. The claim: a number without fractional part infers as the 32-bit integer type on the
  inclusive range from -2147483648 to 2147483647, the two bounds included. Both
  implementations compare strictly, so at the bounds 2147483647 and -2147483648
  themselves they return \<^verbatim>\<open>Int64\<close>.
\<close>

theorem boundary_values_are_Int64:
  "crystalType cfg (JNumber (Finite 2147483647)) = ''Int64''
   \<and> crystalType cfg (JNumber (Finite (- 2147483648))) = ''Int64''
   \<and> Util_crystalType (JNumber (Finite 2147483647)) = ''Int64''
   \<and> Util_crystalType (JNumber (Finite (- 2147483648))) = ''Int64''"
  by (simp add: Util_crystalType_def numberType_cases)

section \<open>The class synthesizer\<close>

text \<open>
  C2. The claim: for the input \<^verbatim>\<open>{"user": {"id": 1}}\<close> the type reference of the field
  \<^verbatim>\<open>user\<close> is the name of the synthesized subclass, \<^verbatim>\<open>User\<close>. \<^verbatim>\<open>parseClass\<close> of
  \<^verbatim>\<open>json-to-crystal.ts\<close> writes the original key \<^verbatim>\<open>user\<close> as the type and declares the
  subclass as \<^verbatim>\<open>class User\<close>; \<^verbatim>\<open>CrystalClass\<close> of the JavaScript implementation writes the
  name of the subclass, \<^verbatim>\<open>User\<close>, in both places.
\<close>

theorem nested_class_reference_differs:
  "parseScope \<lparr>baseClass = ''AutoGenerated'', allNilable = False\<rparr>
     (JObject [(''user'', JObject [(''id'', JNumber (Finite 1))])])
   = ''class AutoGenerated\<newline>\<newline>  JSON.mapping({\<newline>    user: { type: user },\<newline>  })\<newline>\<newline>  class User\<newline>\<newline>    JSON.mapping({\<newline>      id: { type: Int32 },\<newline>    })\<newline>\<newline>  end\<newline>end\<newline>''
   \<and> CrystalClass_toString defaultOptions ''AutoGenerated''
       [(''user'', JObject [(''id'', JNumber (Finite 1))])]
     = Some ''class AutoGenerated\<newline>\<newline>  JSON.mapping({\<newline>    user: { type: User }\<newline>  })\<newline>\<newline>  class User\<newline>\<newline>    JSON.mapping({\<newline>      id: { type: Int32 }\<newline>    })\<newline>\<newline>  end\<newline>\<newline>end\<newline>''"
  by code_simp

text \<open>
  A member named \<^verbatim>\<open>__proto__\<close> whose value is an object has its field entry, and no
  subclass is written for it.
\<close>

lemma proto_member_has_no_subclass:
  "parseScope \<lparr>baseClass = ''AutoGenerated'', allNilable = False\<rparr>
     (JObject [(''__proto__'', JObject [(''id'', JNumber (Finite 1))])])
   = ''class AutoGenerated\<newline>\<newline>  JSON.mapping({\<newline>    proto: { key: \"__proto__\", type: __proto__ },\<newline>  })\<newline>\<newline>end\<newline>''"
  by code_simp





section \<open>The array type synthesizer\<close>

lemma baseUniq_firstOccurrences:
  "baseUniq result xs = result @ filter (\<lambda>y. y \<notin> set result) (firstOccurrences xs)"
proof (induction xs arbitrary: result)
  case Nil
  show ?case by simp
next
  case (Cons x xs)
  show ?case
  proof (cases "x \<in> set result")
    case True
    then have "filter (\<lambda>y. y \<notin> set result) (filter (\<lambda>y. y \<noteq> x) (firstOccurrences xs))
               = filter (\<lambda>y. y \<notin> set result) (firstOccurrences xs)"
      by (auto intro: filter_cong)
    with True Cons show ?thesis by simp
  next
    case False
    have "filter (\<lambda>y. y \<notin> set (result @ [x])) (firstOccurrences xs)
          = filter (\<lambda>y. y \<notin> set result) (filter (\<lambda>y. y \<noteq> x) (firstOccurrences xs))"
      by (auto intro: filter_cong)
    with False Cons [of "result @ [x]"] show ?thesis by simp
  qed
qed

lemma uniq_firstOccurrences: "uniq xs = firstOccurrences xs"
  by (simp add: uniq_def baseUniq_firstOccurrences)

lemma set_firstOccurrences: "set (firstOccurrences xs) = set xs"
  by (induction xs) auto

lemma distinct_firstOccurrences: "distinct (firstOccurrences xs)"
  by (induction xs) auto

lemma firstOccurrences_order:
  "sorted_wrt (\<lambda>a b. firstIndex a xs < firstIndex b xs) (firstOccurrences xs)"
proof (induction xs)
  case Nil
  show ?case by simp
next
  case (Cons x xs)
  have "sorted_wrt (\<lambda>a b. firstIndex a xs < firstIndex b xs)
          (filter (\<lambda>y. y \<noteq> x) (firstOccurrences xs))"
    using Cons by (rule sorted_wrt_filter)
  then have "sorted_wrt (\<lambda>a b. firstIndex a (x # xs) < firstIndex b (x # xs))
          (filter (\<lambda>y. y \<noteq> x) (firstOccurrences xs))"
    by (rule sorted_wrt_mono_rel [rotated]) (auto simp: firstIndex_def)
  then show ?case
    by (auto simp: firstIndex_def)
qed

lemma uniq_Nil: "uniq [] = []"
  by (simp add: uniq_def)

lemma firstOccurrences_Nil: "firstOccurrences xs = [] \<longleftrightarrow> xs = []"
  by (cases xs) simp_all

lemma length_elementTypes: "length (elementTypes transform arr) = length arr"
  by (induction arr) (simp_all add: Let_def)

lemma elementTypes_append:
  "elementTypes transform (xs @ ys) = elementTypes transform xs @ elementTypes transform ys"
  by (induction xs) (simp_all add: Let_def del: CrystalArray_toString.simps)

lemma elementTypes_concat:
  "elementTypes transform arr = concat (map (\<lambda>x. elementTypes transform [x]) arr)"
  by (induction arr) (simp_all add: Let_def del: CrystalArray_toString.simps)

text \<open>The type that \<^verbatim>\<open>CrystalArray.toString\<close> gives to one element, kind by kind.\<close>

lemma elementTypes_single:
  "elementTypes transform [JNull] = [''JSON::Any'']
   \<and> elementTypes transform [JBool b] = [''Bool'']
   \<and> elementTypes transform [JString str] = [''String'']
   \<and> elementTypes transform [JNumber (Finite val)]
       = [if val \<in> \<int>
          then (if - 2147483648 < val \<and> val < 2147483647 then ''Int32'' else ''Int64'')
          else ''Float64'']
   \<and> elementTypes transform [JArray rawArr] = [CrystalArray_toString transform rawArr]
   \<and> elementTypes transform [JObject props] = [CrystalNamedTuple_toString transform props]"
proof -
  have n: "numberType (Finite val) \<noteq> ''class''" "numberType (Finite val) \<noteq> ''array''"
    by (simp_all add: numberType_cases)
  then show ?thesis
    by (simp add: Let_def Util_crystalType_def numberType_cases
          del: CrystalArray_toString.simps)
qed

text \<open>
  C3. The array type synthesizer maps every element to its type in input order, keeps of
  each distinct type the first occurrence only, and joins what is left inside
  \<^verbatim>\<open>Array(...)\<close>: the members of the union are distinct, they are the types that
  occur, and they stand in the order of their first occurrences. An array of nulls has
  the type \<^verbatim>\<open>Array(JSON::Any)\<close>. In \<^verbatim>\<open>json-to-crystal.ts\<close> the types are those of
  \<^verbatim>\<open>parseScope\<close>, element by element; in \<^verbatim>\<open>CrystalArray.toString\<close> the list of types is
  the list of the types of the single elements, each fixed by the kind of its element.
\<close>

theorem array_union_first_occurrences:
  "arrayType cfg arr
     = ''Array('' @ join '' | ''
         (if arr = [] then [''JSON::Any''] else uniq (map (parseScope cfg) arr)) @ '')''
   \<and> CrystalArray_toString transform arr
     = ''Array('' @ join '' | ''
         (if arr = [] then [''JSON::Any''] else uniq (elementTypes transform arr)) @ '')''
   \<and> length (elementTypes transform arr) = length arr
   \<and> elementTypes transform arr = concat (map (\<lambda>x. elementTypes transform [x]) arr)
   \<and> elementTypes transform (arr @ arr')
       = elementTypes transform arr @ elementTypes transform arr'
   \<and> elementTypes transform [JNull] = [''JSON::Any'']
   \<and> elementTypes transform [JBool b] = [''Bool'']
   \<and> elementTypes transform [JString str] = [''String'']
   \<and> elementTypes transform [JNumber (Finite val)]
       = [if val \<in> \<int>
          then (if - 2147483648 < val \<and> val < 2147483647 then ''Int32'' else ''Int64'')
          else ''Float64'']
   \<and> elementTypes transform [JArray rawArr] = [CrystalArray_toString transform rawArr]
   \<and> elementTypes transform [JObject props] = [CrystalNamedTuple_toString transform props]
   \<and> uniq types = firstOccurrences types
   \<and> distinct (uniq types)
   \<and> set (uniq types) = set types
   \<and> sorted_wrt (\<lambda>a b. firstIndex a types < firstIndex b types) (uniq types)
   \<and> distinct (uniq (elementTypes transform arr))
   \<and> set (uniq (elementTypes transform arr)) = set (elementTypes transform arr)
   \<and> sorted_wrt
        (\<lambda>a b. firstIndex a (elementTypes transform arr)
                 < firstIndex b (elementTypes transform arr))
        (uniq (elementTypes transform arr))
   \<and> arrayType cfg [JNull, JNull] = ''Array(JSON::Any)''
   \<and> CrystalArray_toString transform [JNull, JNull] = ''Array(JSON::Any)''
   \<and> arrayType cfg [JNumber (Finite 1), JString ''x'', JNumber (Finite 1)]
       = ''Array(Int32 | String)''
   \<and> CrystalArray_toString transform [JNumber (Finite 1), JString ''x'', JNumber (Finite 1)]
       = ''Array(Int32 | String)''
   \<and> CrystalArray_toString transform [JString ''x'', JNumber (Finite 1), JString ''x'']
       = ''Array(String | Int32)''"
proof (intro conjI)
  have ts: "uniq (map (parseScope cfg) arr) = [] \<longleftrightarrow> arr = []"
    by (simp add: uniq_firstOccurrences firstOccurrences_Nil)
  then show "arrayType cfg arr
     = ''Array('' @ join '' | ''
         (if arr = [] then [''JSON::Any''] else uniq (map (parseScope cfg) arr)) @ '')''"
    by (simp add: Let_def uniq_Nil)
  have "elementTypes transform arr = [] \<longleftrightarrow> arr = []"
    using length_elementTypes [of transform arr] by (metis length_0_conv)
  then have js: "uniq (elementTypes transform arr) = [] \<longleftrightarrow> arr = []"
    by (simp add: uniq_firstOccurrences firstOccurrences_Nil)
  then show "CrystalArray_toString transform arr
     = ''Array('' @ join '' | ''
         (if arr = [] then [''JSON::Any''] else uniq (elementTypes transform arr)) @ '')''"
    by (simp add: Let_def uniq_Nil)
  show "length (elementTypes transform arr) = length arr"
    by (rule length_elementTypes)
  show "elementTypes transform arr = concat (map (\<lambda>x. elementTypes transform [x]) arr)"
    by (rule elementTypes_concat)
  show "elementTypes transform (arr @ arr')
       = elementTypes transform arr @ elementTypes transform arr'"
    by (rule elementTypes_append)
  show "elementTypes transform [JNull] = [''JSON::Any'']"
    using elementTypes_single by blast
  show "elementTypes transform [JBool b] = [''Bool'']"
    using elementTypes_single by blast
  show "elementTypes transform [JString str] = [''String'']"
    using elementTypes_single by blast
  show "elementTypes transform [JNumber (Finite val)]
       = [if val \<in> \<int>
          then (if - 2147483648 < val \<and> val < 2147483647 then ''Int32'' else ''Int64'')
          else ''Float64'']"
    using elementTypes_single by blast
  show "elementTypes transform [JArray rawArr] = [CrystalArray_toString transform rawArr]"
    using elementTypes_single by blast
  show "elementTypes transform [JObject props] = [CrystalNamedTuple_toString transform props]"
    using elementTypes_single by blast
  show "uniq types = firstOccurrences types"
    by (rule uniq_firstOccurrences)
  show "distinct (uniq types)"
    by (simp add: uniq_firstOccurrences distinct_firstOccurrences)
  show "set (uniq types) = set types"
    by (simp add: uniq_firstOccurrences set_firstOccurrences)
  show "sorted_wrt (\<lambda>a b. firstIndex a types < firstIndex b types) (uniq types)"
    by (simp add: uniq_firstOccurrences firstOccurrences_order)
  show "distinct (uniq (elementTypes transform arr))"
    by (simp add: uniq_firstOccurrences distinct_firstOccurrences)
  show "set (uniq (elementTypes transform arr)) = set (elementTypes transform arr)"
    by (simp add: uniq_firstOccurrences set_firstOccurrences)
  show "sorted_wrt
        (\<lambda>a b. firstIndex a (elementTypes transform arr)
                 < firstIndex b (elementTypes transform arr))
        (uniq (elementTypes transform arr))"
    by (simp only: uniq_firstOccurrences firstOccurrences_order)
  show "arrayType cfg [JNull, JNull] = ''Array(JSON::Any)''"
    by (simp add: uniq_def)
  show "CrystalArray_toString transform [JNull, JNull] = ''Array(JSON::Any)''"
    by (simp add: uniq_def Util_crystalType_def Let_def)
  have one: "numberType (Finite 1) = ''Int32''"
    by (simp add: numberType_cases)
  show "arrayType cfg [JNumber (Finite 1), JString ''x'', JNumber (Finite 1)]
       = ''Array(Int32 | String)''"
    by (simp add: uniq_def one)
  show "CrystalArray_toString transform [JNumber (Finite 1), JString ''x'', JNumber (Finite 1)]
       = ''Array(Int32 | String)''"
    by (simp add: uniq_def Util_crystalType_def Let_def one)
  show "CrystalArray_toString transform [JString ''x'', JNumber (Finite 1), JString ''x'']
       = ''Array(String | Int32)''"
    by (simp add: uniq_def Util_crystalType_def Let_def one)
qed

text \<open>
  C5. The claim: an object that is an element of an array is rendered as an inline
  \<^verbatim>\<open>NamedTuple\<close>, never as a named class. \<^verbatim>\<open>CrystalArray.toString\<close> does so;
  \<^verbatim>\<open>arrayType\<close> of \<^verbatim>\<open>json-to-crystal.ts\<close> sends the element through \<^verbatim>\<open>parseScope\<close> and
  writes the whole declaration of a class with the base name between the brackets of
  \<^verbatim>\<open>Array(...)\<close>.
\<close>

theorem object_element_is_class_text:
  "arrayType cfg [JObject kvs] = ''Array('' @ parseClass cfg (baseClass cfg) kvs 0 @ '')''
   \<and> arrayType \<lparr>baseClass = ''AutoGenerated'', allNilable = False\<rparr> [JObject [(''a'', JNumber (Finite 1))]]
     = ''Array(class AutoGenerated\<newline>\<newline>  JSON.mapping({\<newline>    a: { type: Int32 },\<newline>  })\<newline>\<newline>end\<newline>)''
   \<and> CrystalArray_toString (\<lambda>x. formatKey (Some x)) [JObject [(''a'', JNumber (Finite 1))]]
     = ''Array(NamedTuple(a: Int32))''"
proof (intro conjI)
  show "arrayType cfg [JObject kvs] = ''Array('' @ parseClass cfg (baseClass cfg) kvs 0 @ '')''"
    by (simp add: uniq_def del: parseClass.simps)
  show "arrayType \<lparr>baseClass = ''AutoGenerated'', allNilable = False\<rparr> [JObject [(''a'', JNumber (Finite 1))]]
     = ''Array(class AutoGenerated\<newline>\<newline>  JSON.mapping({\<newline>    a: { type: Int32 },\<newline>  })\<newline>\<newline>end\<newline>)''"
    by code_simp
  show "CrystalArray_toString (\<lambda>x. formatKey (Some x)) [JObject [(''a'', JNumber (Finite 1))]]
     = ''Array(NamedTuple(a: Int32))''"
    by code_simp
qed

text \<open>
  C8. The empty array has the type \<^verbatim>\<open>Array(JSON::Any)\<close> in both implementations: the
  marker is the only member of the union, and no path raises an error.
\<close>

theorem empty_array_type:
  "arrayType cfg [] = ''Array(JSON::Any)''
   \<and> parseScope cfg (JArray []) = ''Array(JSON::Any)''
   \<and> CrystalArray_toString transform [] = ''Array(JSON::Any)''
   \<and> JsonToCrystal_parse JSON_parse opts (JArray [])
       = Some (Inr (Some ''alias AutoGenerated = Array(JSON::Any)''))"
  by (simp add: uniq_def JsonToCrystal_parse.simps)

section \<open>The key formatter\<close>

lemma lower_facts:
  "isLower c \<Longrightarrow> \<not> isUpper c \<and> \<not> isDigit c \<and> c \<noteq> CHR ''_'' \<and> c \<noteq> CHR 0x27 \<and> toLowerChar c = c"
  by (auto simp: isLower_def isUpper_def isDigit_def toLowerChar_def less_eq_char_def)

lemma digit_facts:
  "isDigit c \<Longrightarrow> \<not> isUpper c \<and> \<not> isLower c \<and> c \<noteq> CHR ''_'' \<and> c \<noteq> CHR 0x27 \<and> toLowerChar c = c"
  by (auto simp: isLower_def isUpper_def isDigit_def toLowerChar_def less_eq_char_def)

lemma underscore_facts:
  "\<not> isUpper (CHR ''_'') \<and> \<not> isLower (CHR ''_'') \<and> \<not> isDigit (CHR ''_'')
   \<and> toLowerChar (CHR ''_'') = CHR ''_''"
  by (simp add: isLower_def isUpper_def isDigit_def toLowerChar_def)

lemma keyChar_facts:
  "keyChar c \<Longrightarrow> \<not> isUpper c \<and> c \<noteq> CHR 0x27 \<and> toLowerChar c = c"
  using lower_facts [of c] digit_facts [of c] underscore_facts
  by (auto simp: keyChar_def)

lemma splitOn_chars:
  "list_all (\<lambda>w. list_all Q w) (splitOn sep k) \<Longrightarrow> list_all (\<lambda>x. Q x \<or> x = sep) k"
  by (induction k) (auto split: list.splits if_splits)

lemma isSnakeCase_chars:
  assumes "isSnakeCase k"
  shows "list_all keyChar k"
proof -
  from assms have "list_all (\<lambda>w. list_all (\<lambda>c. isLower c \<or> isDigit c) w) (splitOn (CHR ''_'') k)"
    by (auto simp: isSnakeCase_def list_all_iff)
  from splitOn_chars [OF this] show ?thesis
    by (auto simp: keyChar_def list_all_iff)
qed

lemma isSnakeCase_head:
  assumes "isSnakeCase k"
  obtains c cs where "k = c # cs" and "isLower c \<or> isDigit c"
proof (cases k)
  case Nil
  with assms show ?thesis by (simp add: isSnakeCase_def)
next
  case (Cons c cs)
  with assms have "isLower c \<or> isDigit c"
    by (auto simp: isSnakeCase_def split: if_splits list.splits)
  with Cons that show ?thesis by blast
qed

lemma takeWhile_all:
  "list_all P w \<Longrightarrow> atSeparator rest \<Longrightarrow> \<not> P (CHR ''_'') \<Longrightarrow> takeWhile P (w @ rest) = w"
  by (cases rest) (auto simp: atSeparator_def list_all_iff takeWhile_append2)

lemma not_ordUpper: "list_all keyChar after \<Longrightarrow> \<not> ordUpper d after"
proof
  assume k: "list_all keyChar after" and o: "ordUpper d after"
  from o have t: "take 2 after = map toUpperChar (ordinalSuffix d)"
    by (simp add: ordUpper_def)
  then obtain x rest where a: "after = x # rest"
    by (cases after) (auto simp: ordinalSuffix_def split: if_splits)
  with t have "isUpper x"
    by (auto simp: ordinalSuffix_def toUpperChar_def isLower_def isUpper_def split: if_splits)
  moreover from k a have "keyChar x" by simp
  ultimately show False using keyChar_facts by blast
qed

lemma not_ordLower: "atSeparator rest \<Longrightarrow> \<not> ordLower d rest"
  by (cases rest) (auto simp: atSeparator_def ordLower_def ordinalSuffix_def)

lemma wordLength_lower:
  "s \<noteq> [] \<Longrightarrow> isLower (hd s) \<Longrightarrow> wordLength s = length (takeWhile isLower s)"
  by (cases s) (simp_all add: wordLength_def)

lemma wordLength_digit:
  "s \<noteq> [] \<Longrightarrow> isDigit (hd s) \<Longrightarrow>
   wordLength s =
     (if ordUpper (last (takeWhile isDigit s)) (drop (length (takeWhile isDigit s)) s)
         \<or> ordLower (last (takeWhile isDigit s)) (drop (length (takeWhile isDigit s)) s)
      then length (takeWhile isDigit s) + 2 else length (takeWhile isDigit s))"
  using digit_facts [of "hd s"] by (cases s) (simp_all add: wordLength_def Let_def)

lemma wordLength_separator: "wordLength (CHR ''_'' # r) = 0"
  using underscore_facts by (simp add: wordLength_def)

lemma stable_lower:
  assumes "w \<noteq> []" and "list_all isLower w"
  shows "stable w"
proof -
  from assms have c: "isLower (hd w)"
    by (cases w) auto
  have k: "list_all keyChar w"
    using assms(2) by (auto simp: list_all_iff keyChar_def)
  have "wordLength (w @ rest) = length w" if "atSeparator rest" for rest
  proof -
    have "takeWhile isLower (w @ rest) = w"
      using assms(2) that underscore_facts by (simp add: takeWhile_all)
    with assms(1) c show ?thesis
      by (simp add: wordLength_lower)
  qed
  with assms(1) k show ?thesis
    by (simp add: stable_def)
qed

lemma stable_digits:
  assumes "w \<noteq> []" and "list_all isDigit w"
  shows "stable w"
proof -
  from assms have c: "isDigit (hd w)"
    by (cases w) auto
  have k: "list_all keyChar w"
    using assms(2) by (auto simp: list_all_iff keyChar_def)
  have "wordLength (w @ rest) = length w" if sep: "atSeparator rest" for rest
  proof -
    have tw: "takeWhile isDigit (w @ rest) = w"
      using assms(2) sep underscore_facts by (simp add: takeWhile_all)
    have nu: "\<not> ordUpper (last w) rest"
      using sep
      by (cases rest)
        (auto simp: atSeparator_def ordUpper_def ordinalSuffix_def toUpperChar_def isLower_def)
    have nl: "\<not> ordLower (last w) rest"
      using sep by (rule not_ordLower)
    from assms(1) c tw nu nl show ?thesis
      by (simp add: wordLength_digit)
  qed
  with assms(1) k show ?thesis
    by (simp add: stable_def)
qed

lemma stable_ordinal:
  assumes "ds \<noteq> []" and "list_all isDigit ds"
  shows "stable (ds @ ordinalSuffix (last ds))"
proof -
  let ?suf = "ordinalSuffix (last ds)"
  let ?w = "ds @ ?suf"
  from assms have c: "isDigit (hd ds)"
    by (cases ds) auto
  have suf: "list_all isLower ?suf" "length ?suf = 2"
    by (simp_all add: ordinalSuffix_def isLower_def)
  then have sufk: "list_all keyChar ?suf"
    by (auto simp: list_all_iff keyChar_def)
  have k: "list_all keyChar ?w"
    using assms(2) sufk by (auto simp: list_all_iff keyChar_def)
  have "wordLength (?w @ rest) = length ?w" if sep: "atSeparator rest" for rest
  proof -
    have "\<exists>a b. ?suf = [a, b]"
      by (simp add: ordinalSuffix_def)
    then obtain a b where ab: "?suf = [a, b]"
      by blast
    with suf(1) have "\<not> isDigit a"
      using lower_facts by auto
    with ab assms(2) have tw: "takeWhile isDigit (?w @ rest) = ds"
      by (simp add: takeWhile_append2 list_all_iff)
    have dr: "drop (length ds) (?w @ rest) = ?suf @ rest"
      by simp
    have ol: "ordLower (last ds) (?suf @ rest)"
      using sep suf(2) underscore_facts
      by (cases rest) (auto simp: ordLower_def atSeparator_def)
    from assms(1) c have "?w @ rest \<noteq> []" "isDigit (hd (?w @ rest))"
      by simp_all
    from wordLength_digit [OF this] tw dr ol suf(2) show ?thesis
      by simp
  qed
  with k assms(1) show ?thesis
    by (simp add: stable_def)
qed

lemma list_all_drop: "list_all P xs \<Longrightarrow> list_all P (drop n xs)"
  by (auto simp: list_all_iff dest: in_set_dropD)

lemma unicodeWords_stable:
  "list_all keyChar s \<Longrightarrow> list_all stable (unicodeWords s)"
proof (induction s rule: unicodeWords.induct)
  case 1
  show ?case by simp
next
  case (2 c cs)
  let ?s = "c # cs"
  let ?n = "wordLength ?s"
  show ?case
  proof (cases "?n = 0")
    case True
    with 2 show ?thesis by simp
  next
    case False
    from "2.prems" have "list_all keyChar (drop ?n ?s)"
      by (rule list_all_drop)
    with False "2.IH"(2) have rest: "list_all stable (unicodeWords (drop ?n ?s))"
      by simp
    from "2.prems" have "keyChar c" by simp
    then consider (lower) "isLower c" | (digit) "isDigit c" | (sep) "c = CHR ''_''"
      by (auto simp: keyChar_def)
    then have "stable (take ?n ?s)"
    proof cases
      case lower
      then have "?n = length (takeWhile isLower ?s)"
        by (simp add: wordLength_lower)
      then have "take ?n ?s = takeWhile isLower ?s"
        by (metis takeWhile_eq_take)
      moreover have "list_all isLower (takeWhile isLower ?s)"
        by (auto simp: list_all_iff dest: set_takeWhileD)
      moreover from lower have "takeWhile isLower ?s \<noteq> []"
        by simp
      ultimately show ?thesis
        by (simp add: stable_lower)
    next
      case digit
      let ?ds = "takeWhile isDigit ?s"
      let ?after = "drop (length ?ds) ?s"
      have ds: "?ds \<noteq> []" "list_all isDigit ?ds"
        using digit by (auto simp: list_all_iff dest: set_takeWhileD)
      have split: "?s = ?ds @ ?after"
        by (metis takeWhile_eq_take append_take_drop_id)
      from "2.prems" have "list_all keyChar ?after"
        by (rule list_all_drop)
      then have nu: "\<not> ordUpper (last ?ds) ?after"
        by (rule not_ordUpper)
      show ?thesis
      proof (cases "ordLower (last ?ds) ?after")
        case True
        with digit have n: "?n = length ?ds + 2"
          by (simp add: wordLength_digit)
        from True have "take 2 ?after = ordinalSuffix (last ?ds)"
          by (simp add: ordLower_def)
        then have "take (length ?ds + 2) (?ds @ ?after) = ?ds @ ordinalSuffix (last ?ds)"
          by simp
        with split n have "take ?n ?s = ?ds @ ordinalSuffix (last ?ds)"
          by metis
        with ds show ?thesis
          by (simp add: stable_ordinal)
      next
        case False
        with digit nu have "?n = length ?ds"
          by (simp add: wordLength_digit)
        then have "take ?n ?s = ?ds"
          by (metis takeWhile_eq_take)
        with ds show ?thesis
          by (simp add: stable_digits)
      qed
    next
      case sep
      with False show ?thesis
        by (simp add: wordLength_separator)
    qed
    with False rest show ?thesis
      by (simp add: Let_def)
  qed
qed

lemma unicodeWords_stable_word:
  assumes "stable w" and "atSeparator rest"
  shows "unicodeWords (w @ rest) = w # unicodeWords rest"
proof -
  from assms(1) obtain c cs where w: "w = c # cs"
    by (cases w) (auto simp: stable_def)
  from assms have n: "wordLength (w @ rest) = length w"
    by (simp add: stable_def)
  have "unicodeWords ((c # cs) @ rest)
        = take (length w) (w @ rest) # unicodeWords (drop (length w) (w @ rest))"
    using n w by (simp add: Let_def)
  with w show ?thesis by simp
qed

lemma unicodeWords_join:
  "list_all stable ws \<Longrightarrow> unicodeWords (join ''_'' ws) = ws"
proof (induction "''_''" ws rule: join.induct)
  case 1
  show ?case by simp
next
  case (2 x)
  then have "unicodeWords (x @ []) = x # unicodeWords []"
    by (intro unicodeWords_stable_word) (simp_all add: atSeparator_def)
  then show ?case by simp
next
  case (3 x y ys)
  have "unicodeWords (x @ ''_'' @ join ''_'' (y # ys))
        = x # unicodeWords (''_'' @ join ''_'' (y # ys))"
    using 3 by (intro unicodeWords_stable_word) (simp_all add: atSeparator_def)
  also have "unicodeWords (''_'' @ join ''_'' (y # ys)) = unicodeWords (join ''_'' (y # ys))"
    by (simp add: wordLength_separator)
  finally show ?case using 3 by simp
qed

lemma words_keyChars: "list_all keyChar s \<Longrightarrow> words s = unicodeWords s"
proof -
  assume "list_all keyChar s"
  then have "filter (\<lambda>c. c \<noteq> CHR 0x27) s = s"
    using keyChar_facts by (auto simp: list_all_iff intro: filter_True)
  then show ?thesis
    by (simp add: words_def)
qed

lemma toLowerCase_keyChars: "list_all keyChar w \<Longrightarrow> toLowerCase w = w"
  using keyChar_facts by (auto simp: toLowerCase_def list_all_iff intro: map_idI)

lemma join_keyChars:
  "list_all (list_all keyChar) ws \<Longrightarrow> list_all keyChar (join ''_'' ws)"
  by (induction "''_''" ws rule: join.induct) (simp_all add: keyChar_def)

lemma snakeCase_keyChars:
  assumes "list_all keyChar s"
  shows "snakeCase s = join ''_'' (unicodeWords s)"
    and "list_all keyChar (snakeCase s)"
    and "snakeCase (snakeCase s) = snakeCase s"
proof -
  from assms have st: "list_all stable (unicodeWords s)"
    by (rule unicodeWords_stable)
  then have ks: "list_all (list_all keyChar) (unicodeWords s)"
    by (auto simp: list_all_iff stable_def)
  then have "map toLowerCase (unicodeWords s) = unicodeWords s"
    by (auto simp: list_all_iff toLowerCase_keyChars intro: map_idI)
  with assms show a: "snakeCase s = join ''_'' (unicodeWords s)"
    by (simp add: snakeCase_def words_keyChars)
  from ks show b: "list_all keyChar (snakeCase s)"
    unfolding a by (rule join_keyChars)
  from st have "unicodeWords (snakeCase s) = unicodeWords s"
    unfolding a by (rule unicodeWords_join)
  then have "join ''_'' (unicodeWords (snakeCase s)) = snakeCase s"
    by (simp add: a)
  moreover have "snakeCase (snakeCase s) = join ''_'' (unicodeWords (snakeCase s))"
  proof -
    from b have "words (snakeCase s) = unicodeWords (snakeCase s)"
      by (rule words_keyChars)
    moreover from b have "list_all stable (unicodeWords (snakeCase s))"
      by (rule unicodeWords_stable)
    then have "map toLowerCase (unicodeWords (snakeCase s)) = unicodeWords (snakeCase s)"
      by (auto simp: list_all_iff stable_def toLowerCase_keyChars intro: map_idI)
    ultimately show ?thesis
      by (simp add: snakeCase_def)
  qed
  ultimately show "snakeCase (snakeCase s) = snakeCase s"
    by simp
qed

lemma snakeCase_head:
  assumes "isLower c" and "list_all keyChar (c # cs)"
  shows "\<exists>t. snakeCase (c # cs) = c # t"
proof -
  let ?s = "c # cs"
  from assms(1) have n: "wordLength ?s = Suc (length (takeWhile isLower cs))"
    by (simp add: wordLength_lower)
  then have "unicodeWords ?s
      = take (wordLength ?s) ?s # unicodeWords (drop (wordLength ?s) ?s)"
    by (simp add: Let_def)
  with n have "\<exists>w ws. unicodeWords ?s = (c # w) # ws"
    by simp
  then obtain w ws where "unicodeWords ?s = (c # w) # ws"
    by blast
  then have "join ''_'' (unicodeWords ?s) = c # w @ join ''_'' ws \<or> join ''_'' (unicodeWords ?s) = c # w @ ''_'' @ join ''_'' ws"
    by (cases ws) simp_all
  with snakeCase_keyChars(1) [OF assms(2)] show ?thesis
    by auto
qed

lemma format_lower_head:
  "isLower c \<Longrightarrow> format (Some (c # cs)) = snakeCase (c # cs)"
  using lower_facts [of c] by (simp add: format_def)

text \<open>
  C9. The key formatter has no failing path: an absent and an empty key give the empty
  text, and every other key gives the snake-cased text. Formatting a key that is in
  snake case and does not start with a digit gives a text that formatting leaves as it
  is.
\<close>

theorem format_idempotent_on_snake_case:
  "format None = [] \<and> format (Some []) = []
   \<and> (isSnakeCase k \<and> \<not> startsWithDigit k
        \<longrightarrow> format (Some (format (Some k))) = format (Some k))"
proof (intro conjI impI)
  show "format None = []" by (simp add: format_def)
  show "format (Some []) = []" by (simp add: format_def)
  assume h: "isSnakeCase k \<and> \<not> startsWithDigit k"
  then obtain c cs where k: "k = c # cs" and "isLower c \<or> isDigit c"
    by (auto elim: isSnakeCase_head)
  with h have c: "isLower c"
    by (auto simp: startsWithDigit_def)
  from h have ks: "list_all keyChar k"
    by (simp add: isSnakeCase_chars)
  from c have f: "format (Some k) = snakeCase k"
    unfolding k by (rule format_lower_head)
  from c ks obtain t where t: "snakeCase k = c # t"
    unfolding k using snakeCase_head by blast
  from c have "format (Some (c # t)) = snakeCase (c # t)"
    by (rule format_lower_head)
  with t f snakeCase_keyChars(3) [OF ks]
  show "format (Some (format (Some k))) = format (Some k)"
    by simp
qed

theorem format_idempotent_on_snake_case_witness:
  "isSnakeCase ''user_id2'' \<and> \<not> startsWithDigit ''user_id2''
   \<and> format (Some ''user_id2'') = ''user_id_2''
   \<and> format (Some (format (Some ''user_id2''))) = format (Some ''user_id2'')"
proof -
  have a: "isSnakeCase ''user_id2''" by code_simp
  have b: "\<not> startsWithDigit ''user_id2''" by code_simp
  have c: "format (Some ''user_id2'') = ''user_id_2''" by code_simp
  from a b format_idempotent_on_snake_case [of "''user_id2''"] c show ?thesis
    by blast
qed

text \<open>
  C10. The key formatter is not injective: the distinct keys \<^verbatim>\<open>aB\<close> and \<^verbatim>\<open>a_b\<close> both
  format to \<^verbatim>\<open>a_b\<close>, and an object with the two keys gets two field entries named
  \<^verbatim>\<open>a_b\<close>. The prefix for a key of digits gives a second pair, \<^verbatim>\<open>123\<close> and
  \<^verbatim>\<open>num123\<close>, whatever the snake-casing does.
\<close>

theorem format_not_injective:
  "''aB'' \<noteq> ''a_b''
   \<and> format (Some ''aB'') = ''a_b'' \<and> format (Some ''a_b'') = ''a_b''
   \<and> format (Some ''123'') = format (Some ''num123'')
   \<and> (\<exists>k1 k2. k1 \<noteq> k2 \<and> format (Some k1) = format (Some k2))
   \<and> parseClass \<lparr>baseClass = ''AutoGenerated'', allNilable = False\<rparr> ''AutoGenerated''
        [(''aB'', JNumber (Finite 1)), (''a_b'', JNumber (Finite 2))] 0
     = ''class AutoGenerated\<newline>\<newline>  JSON.mapping({\<newline>    a_b: { key: \"aB\", type: Int32 },\<newline>    a_b: { type: Int32 },\<newline>  })\<newline>\<newline>end\<newline>''"
proof -
  have a: "format (Some ''aB'') = ''a_b''" by code_simp
  have b: "format (Some ''a_b'') = ''a_b''" by code_simp
  have c: "''aB'' \<noteq> ''a_b''" by simp
  have d: "parseClass \<lparr>baseClass = ''AutoGenerated'', allNilable = False\<rparr> ''AutoGenerated''
        [(''aB'', JNumber (Finite 1)), (''a_b'', JNumber (Finite 2))] 0
     = ''class AutoGenerated\<newline>\<newline>  JSON.mapping({\<newline>    a_b: { key: \"aB\", type: Int32 },\<newline>    a_b: { type: Int32 },\<newline>  })\<newline>\<newline>end\<newline>''"
    by code_simp
  have e: "format (Some ''123'') = format (Some ''num123'')"
    by (simp add: format_def isDigit_def)
  from a b c have "\<exists>k1 k2. k1 \<noteq> k2 \<and> format (Some k1) = format (Some k2)"
    by metis
  with a b c d e show ?thesis by blast
qed

section \<open>Raw text\<close>

lemma length_replaceDotZero: "length (replaceDotZero s) = length s"
  by (induction s rule: replaceDotZero.induct) auto

lemma nth_replaceDotZero:
  "i < length s \<Longrightarrow>
   replaceDotZero s ! i =
     (if 0 < i \<and> s ! (i - 1) = CHR ''.'' \<and> s ! i = CHR ''0'' then CHR ''1'' else s ! i)"
proof (induction s arbitrary: i rule: replaceDotZero.induct)
  case (1 a b s)
  show ?case
  proof (cases "a = CHR ''.'' \<and> b = CHR ''0''")
    case True
    show ?thesis
    proof (cases i)
      case 0
      with True show ?thesis by simp
    next
      case (Suc i')
      show ?thesis
      proof (cases i')
        case 0
        with Suc True show ?thesis by simp
      next
        case (Suc j)
        with \<open>i = Suc i'\<close> "1.prems" have "j < length s" by simp
        from "1.IH"(1) [OF True this] True Suc \<open>i = Suc i'\<close> show ?thesis
          by (cases j) simp_all
      qed
    qed
  next
    case False
    show ?thesis
    proof (cases i)
      case 0
      with False show ?thesis by auto
    next
      case (Suc j)
      with "1.prems" have "j < length (b # s)" by simp
      from "1.IH"(2) [OF False this] False Suc show ?thesis
        by (cases j) auto
    qed
  qed
qed simp_all

text \<open>
  C6. A raw text is rewritten before it is parsed: the rewritten text has the length of
  the text, a zero that stands behind a full stop has become a one, inside string
  literals as elsewhere, and every other character is unchanged; the parser is called on
  the rewritten text. An array or an object that is handed over already parsed is
  rendered as it is, without a rewrite and without the parser.
\<close>

theorem rewrite_then_parse:
  "length (replaceDotZero text) = length text
   \<and> (\<forall>i<length text.
         replaceDotZero text ! i
           = (if 0 < i \<and> text ! (i - 1) = CHR ''.'' \<and> text ! i = CHR ''0'' then CHR ''1''
              else text ! i))
   \<and> replaceDotZero ''{\"v\": \"x1.0y\", \"n\": 2.0}'' = ''{\"v\": \"x1.1y\", \"n\": 2.1}''
   \<and> parse JSON_parse cfg text
       = (case JSON_parse (replaceDotZero text) of
            None \<Rightarrow> Inl SyntaxError
          | Some data \<Rightarrow> Inr (parseScope cfg data))
   \<and> JsonToCrystal_parse JSON_parse opts (JString text)
       = (case JSON_parse (replaceDotZero text) of
            None \<Rightarrow> Some (Inl SyntaxError)
          | Some data \<Rightarrow> JsonToCrystal_parse JSON_parse opts data)
   \<and> JsonToCrystal_parse JSON_parse opts (JArray arr)
       = Some (Inr (Some (''alias AutoGenerated = ''
                 @ CrystalArray_toString (\<lambda>x. formatKey (Some x)) arr)))
   \<and> JsonToCrystal_parse JSON_parse opts (JObject props)
       = Some (Inr (CrystalClass_toString opts (baseClassName opts) props))"
proof (intro conjI)
  show "length (replaceDotZero text) = length text"
    by (rule length_replaceDotZero)
  show "\<forall>i<length text.
         replaceDotZero text ! i
           = (if 0 < i \<and> text ! (i - 1) = CHR ''.'' \<and> text ! i = CHR ''0'' then CHR ''1''
              else text ! i)"
    using nth_replaceDotZero by blast
  show "replaceDotZero ''{\"v\": \"x1.0y\", \"n\": 2.0}'' = ''{\"v\": \"x1.1y\", \"n\": 2.1}''"
    by simp
  show "parse JSON_parse cfg text
       = (case JSON_parse (replaceDotZero text) of
            None \<Rightarrow> Inl SyntaxError
          | Some data \<Rightarrow> Inr (parseScope cfg data))"
    by (simp add: parse_def)
  show "JsonToCrystal_parse JSON_parse opts (JString text)
       = (case JSON_parse (replaceDotZero text) of
            None \<Rightarrow> Some (Inl SyntaxError)
          | Some data \<Rightarrow> JsonToCrystal_parse JSON_parse opts data)"
    by (subst JsonToCrystal_parse.simps) simp
  show "JsonToCrystal_parse JSON_parse opts (JArray arr)
       = Some (Inr (Some (''alias AutoGenerated = ''
                 @ CrystalArray_toString (\<lambda>x. formatKey (Some x)) arr)))"
    by (subst JsonToCrystal_parse.simps) simp
  show "JsonToCrystal_parse JSON_parse opts (JObject props)
       = Some (Inr (CrystalClass_toString opts (baseClassName opts) props))"
    by (subst JsonToCrystal_parse.simps) (simp del: CrystalClass_toString.simps)
qed

theorem rewrite_then_parse_witness:
  "(8::nat) < length ''{\"n\": 2.0}''
   \<and> replaceDotZero ''{\"n\": 2.0}'' ! 8 = CHR ''1''
   \<and> replaceDotZero ''{\"n\": 2.0}'' ! 6 = CHR ''2''
   \<and> parse (map_of [(''{\"n\": 2.1}'', JObject [(''n'', JNumber (Finite (21 / 10)))])])
         \<lparr>baseClass = ''AutoGenerated'', allNilable = False\<rparr> ''{\"n\": 2.0}''
       = Inr ''class AutoGenerated\<newline>\<newline>  JSON.mapping({\<newline>    n: { type: Float64 },\<newline>  })\<newline>\<newline>end\<newline>''"
proof -
  let ?text = "''{\"n\": 2.0}''"
  let ?p = "map_of [(''{\"n\": 2.1}'', JObject [(''n'', JNumber (Finite (21 / 10)))])]"
  let ?cfg = "\<lparr>baseClass = ''AutoGenerated'', allNilable = False\<rparr>"
  note t = rewrite_then_parse [of ?text ?p ?cfg]
  have l: "(8::nat) < length ?text" "(6::nat) < length ?text"
    by simp_all
  from t l have a: "replaceDotZero ?text ! 8 = CHR ''1''"
    by simp
  from t l have b: "replaceDotZero ?text ! 6 = CHR ''2''"
    by simp
  have r: "replaceDotZero ?text = ''{\"n\": 2.1}''"
    by simp
  have c: "parseScope ?cfg (JObject [(''n'', JNumber (Finite (21 / 10)))])
       = ''class AutoGenerated\<newline>\<newline>  JSON.mapping({\<newline>    n: { type: Float64 },\<newline>  })\<newline>\<newline>end\<newline>''"
    by code_simp
  from t have "parse ?p ?cfg ?text
       = (case ?p (replaceDotZero ?text) of
            None \<Rightarrow> Inl SyntaxError
          | Some data \<Rightarrow> Inr (parseScope ?cfg data))"
    by blast
  with r c have d: "parse ?p ?cfg ?text
       = Inr ''class AutoGenerated\<newline>\<newline>  JSON.mapping({\<newline>    n: { type: Float64 },\<newline>  })\<newline>\<newline>end\<newline>''"
    by simp
  from l a b d show ?thesis by blast
qed

lemma parse_never_JsonParseError: "parse JSON_parse cfg text \<noteq> Inl JsonParseError"
  by (simp add: parse_def split: option.splits)

lemma JsonToCrystal_parse_never_JsonParseError:
  assumes "JsonToCrystal_parse JSON_parse opts scope = Some r"
  shows "r \<noteq> Inl JsonParseError"
proof (rule JsonToCrystal_parse.raw_induct
    [where P = "\<lambda>JSON_parse opts scope r. r \<noteq> Inl JsonParseError", OF _ assms])
  fix f :: "(string \<Rightarrow> json option) \<Rightarrow> options \<Rightarrow> json \<Rightarrow> (error + string option) option"
  fix JSON_parse opts scope y
  assume ih: "\<And>JSON_parse opts scope y. f JSON_parse opts scope = Some y \<Longrightarrow> y \<noteq> Inl JsonParseError"
  assume "(case scope of
      JString text \<Rightarrow>
        (case JSON_parse (replaceDotZero text) of
           None \<Rightarrow> Some (Inl SyntaxError)
         | Some data \<Rightarrow> f JSON_parse opts data)
      | JArray arr \<Rightarrow>
          Some (Inr (Some (''alias AutoGenerated = ''
                  @ CrystalArray_toString (\<lambda>x. formatKey (Some x)) arr)))
      | JObject props \<Rightarrow> Some (Inr (CrystalClass_toString opts (baseClassName opts) props))
      | _ \<Rightarrow> Some (Inl (UnsupportedDataType (typeof scope)))) = Some y"
  with ih show "y \<noteq> Inl JsonParseError"
    by (auto split: json.splits option.splits simp del: CrystalClass_toString.simps CrystalArray_toString.simps)
qed

text \<open>
  C4. The claim: a text that is not valid JSON after the rewrite fails with the
  program's own \<^verbatim>\<open>JsonParseError\<close>. Both implementations declare that class and never
  raise it, whatever the text: where \<^verbatim>\<open>JSON.parse\<close> rejects the rewritten text, its
  \<^verbatim>\<open>SyntaxError\<close> leaves \<^verbatim>\<open>parse\<close> as it is.
\<close>

theorem syntax_error_is_not_wrapped:
  "parse JSON_parse cfg text \<noteq> Inl JsonParseError
   \<and> JsonToCrystal_parse JSON_parse opts scope \<noteq> Some (Inl JsonParseError)
   \<and> (JSON_parse (replaceDotZero text) = None \<longrightarrow>
        parse JSON_parse cfg text = Inl SyntaxError
        \<and> JsonToCrystal_parse JSON_parse opts (JString text) = Some (Inl SyntaxError))"
proof (intro conjI impI)
  show "parse JSON_parse cfg text \<noteq> Inl JsonParseError"
    by (rule parse_never_JsonParseError)
  show "JsonToCrystal_parse JSON_parse opts scope \<noteq> Some (Inl JsonParseError)"
    using JsonToCrystal_parse_never_JsonParseError by blast
  assume "JSON_parse (replaceDotZero text) = None"
  then show "parse JSON_parse cfg text = Inl SyntaxError"
    by (simp add: parse_def)
  assume "JSON_parse (replaceDotZero text) = None"
  then show "JsonToCrystal_parse JSON_parse opts (JString text) = Some (Inl SyntaxError)"
    by (subst JsonToCrystal_parse.simps) simp
qed

theorem syntax_error_is_not_wrapped_witness:
  "map_of [(''{\"n\": 2.1}'', JObject [(''n'', JNumber (Finite (21 / 10)))])] (replaceDotZero ''{'') = None
   \<and> parse (map_of [(''{\"n\": 2.1}'', JObject [(''n'', JNumber (Finite (21 / 10)))])])
         \<lparr>baseClass = ''AutoGenerated'', allNilable = False\<rparr> ''{'' = Inl SyntaxError
   \<and> JsonToCrystal_parse (map_of [(''{\"n\": 2.1}'', JObject [(''n'', JNumber (Finite (21 / 10)))])])
         defaultOptions (JString ''{'') = Some (Inl SyntaxError)"
proof -
  let ?p = "map_of [(''{\"n\": 2.1}'', JObject [(''n'', JNumber (Finite (21 / 10)))])]"
  have h: "?p (replaceDotZero ''{'') = None"
    by simp
  from syntax_error_is_not_wrapped [of ?p _ "''{''"] h show ?thesis
    by blast
qed

end
